theory Spec2Isabelle
  imports Complex_Main "HOL-Library.Log_Nat"
begin

section \<open>Python floats\<close>

text \<open>
  The fields of a \<open>Dual\<close> and the scalars it is combined with are Python floats (the
  docstrings: \<open>real (float)\<close>, \<open>dual (float)\<close>, \<open>other (Dual or float)\<close>), that is IEEE-754
  binary64 values. A finite value is kept as the real number it denotes; the two zeros
  are one value (no operation of the class tells them apart: \<open>-0.0 == 0\<close> holds and a
  division by either raises), and there is one NaN. An integer literal such as \<open>2\<close> in
  \<open>Dual(2, 1)\<close> stands for the float of the same value.
\<close>

datatype pyfloat = Finite real | PosInf | NegInf | NaN

datatype error = ZeroDivisionError | OverflowError | TypeError | ValueError | ComplexResult

text \<open>
  \<open>ilog2 x\<close> is the binary exponent of a positive \<open>x\<close>; \<open>round_pos\<close> rounds a
  non-negative real to the nearest binary64 value, ties to even, with gradual underflow
  below \<open>2 powi (- 1022)\<close> and overflow to infinity from \<open>2 powi 1024\<close> on.
\<close>

definition ilog2 :: "real \<Rightarrow> int" where
  "ilog2 x = (if 1 \<le> x then bitlen \<lfloor>x\<rfloor> - 1 else - bitlen (\<lceil>1 / x\<rceil> - 1))"

definition round_half_even :: "real \<Rightarrow> int" where
  "round_half_even x =
     (let f = \<lfloor>x\<rfloor>; d = x - of_int f
      in if d < 1 / 2 then f else if 1 / 2 < d then f + 1 else if even f then f else f + 1)"

definition round_pos :: "real \<Rightarrow> pyfloat" where
  "round_pos x =
     (if x = 0 then Finite 0
      else let e = max (ilog2 x) (- 1022);
               u = 2 powi (e - 52);
               r = of_int (round_half_even (x / u)) * u
           in if 2 powi 1024 \<le> r then PosInf else Finite r)"

fun fneg :: "pyfloat \<Rightarrow> pyfloat" where
  "fneg (Finite x) = Finite (- x)"
| "fneg PosInf = NegInf"
| "fneg NegInf = PosInf"
| "fneg NaN = NaN"

definition rnd :: "real \<Rightarrow> pyfloat" where
  "rnd x = (if x < 0 then fneg (round_pos (- x)) else round_pos x)"

definition is_double :: "pyfloat \<Rightarrow> bool" where
  "is_double a = (case a of Finite x \<Rightarrow> rnd x = Finite x | _ \<Rightarrow> True)"

text \<open>Comparison: \<open>==\<close>, \<open><=\<close>. Every comparison with NaN is false.\<close>

fun feq :: "pyfloat \<Rightarrow> pyfloat \<Rightarrow> bool" where
  "feq (Finite x) (Finite y) = (x = y)"
| "feq PosInf PosInf = True"
| "feq NegInf NegInf = True"
| "feq _ _ = False"

fun fle :: "pyfloat \<Rightarrow> pyfloat \<Rightarrow> bool" where
  "fle NaN _ = False"
| "fle _ NaN = False"
| "fle (Finite x) (Finite y) = (x \<le> y)"
| "fle NegInf _ = True"
| "fle _ PosInf = True"
| "fle _ _ = False"

text \<open>Arithmetic: \<open>+\<close>, \<open>-\<close>, \<open>*\<close> never raise on floats.\<close>

fun fadd :: "pyfloat \<Rightarrow> pyfloat \<Rightarrow> pyfloat" where
  "fadd NaN _ = NaN"
| "fadd _ NaN = NaN"
| "fadd (Finite x) (Finite y) = rnd (x + y)"
| "fadd PosInf NegInf = NaN"
| "fadd NegInf PosInf = NaN"
| "fadd PosInf _ = PosInf"
| "fadd _ PosInf = PosInf"
| "fadd NegInf _ = NegInf"
| "fadd _ NegInf = NegInf"

definition fsub :: "pyfloat \<Rightarrow> pyfloat \<Rightarrow> pyfloat" where
  "fsub a b = fadd a (fneg b)"

fun fmul :: "pyfloat \<Rightarrow> pyfloat \<Rightarrow> pyfloat" where
  "fmul NaN _ = NaN"
| "fmul _ NaN = NaN"
| "fmul (Finite x) (Finite y) = rnd (x * y)"
| "fmul (Finite x) b = (if x = 0 then NaN else if 0 < x then b else fneg b)"
| "fmul a (Finite y) = (if y = 0 then NaN else if 0 < y then a else fneg a)"
| "fmul PosInf b = b"
| "fmul NegInf b = fneg b"

text \<open>
  \<open>/\<close> raises ZeroDivisionError on a zero divisor, whatever the dividend; otherwise it
  is the IEEE quotient.
\<close>

fun ieee_div :: "pyfloat \<Rightarrow> pyfloat \<Rightarrow> pyfloat" where
  "ieee_div NaN _ = NaN"
| "ieee_div _ NaN = NaN"
| "ieee_div (Finite x) (Finite y) = rnd (x / y)"
| "ieee_div (Finite x) _ = Finite 0"
| "ieee_div a (Finite y) = (if 0 < y then a else fneg a)"
| "ieee_div _ _ = NaN"

definition fdiv :: "pyfloat \<Rightarrow> pyfloat \<Rightarrow> error + pyfloat" where
  "fdiv a b = (if feq b (Finite 0) then Inl ZeroDivisionError else Inr (ieee_div a b))"

text \<open>
  An \<open>int\<close> operand of a float operation is converted first; the conversion rounds and
  raises OverflowError when the integer is too large for a float.
\<close>

definition float_of_int :: "int \<Rightarrow> error + pyfloat" where
  "float_of_int n = (case rnd (of_int n) of Finite x \<Rightarrow> Inr (Finite x) | _ \<Rightarrow> Inl OverflowError)"

text \<open>
  \<open>**\<close> on floats, case by case as the interpreter's \<open>float_pow\<close> sorts them out before
  it calls the C library: a zero exponent gives 1 for every base; a zero base with a
  negative exponent raises ZeroDivisionError; a negative base with a fractional exponent
  gives a complex number, which is no float: the model stops there with the marker
  \<open>ComplexResult\<close>; a finite result too large for a float raises OverflowError, while a
  result that underflows is returned (as zero when it is small enough). The library
  result is taken as the correctly rounded power.
\<close>

definition is_integer :: "real \<Rightarrow> bool" where
  "is_integer w = (of_int \<lfloor>w\<rfloor> = w)"

definition is_odd_integer :: "real \<Rightarrow> bool" where
  "is_odd_integer w = (is_integer w \<and> odd \<lfloor>w\<rfloor>)"

definition exact_pow :: "real \<Rightarrow> real \<Rightarrow> real" where
  "exact_pow x w = (if is_integer w then x powi \<lfloor>w\<rfloor> else x powr w)"

definition fabs :: "pyfloat \<Rightarrow> pyfloat" where
  "fabs a = (case a of Finite x \<Rightarrow> Finite \<bar>x\<bar> | NegInf \<Rightarrow> PosInf | _ \<Rightarrow> a)"

definition finite_pow :: "real \<Rightarrow> real \<Rightarrow> error + pyfloat" where
  "finite_pow x w =
     (if w = 0 then Inr (Finite 1)
      else if x = 0 then (if w < 0 then Inl ZeroDivisionError else Inr (Finite 0))
      else if x < 0 \<and> \<not> is_integer w then Inl ComplexResult
      else if \<bar>x\<bar> = 1 then Inr (Finite (if x < 0 \<and> is_odd_integer w then - 1 else 1))
      else (case rnd (exact_pow \<bar>x\<bar> w) of
              Finite r \<Rightarrow> Inr (Finite (if x < 0 \<and> is_odd_integer w then - r else r))
            | _ \<Rightarrow> Inl OverflowError))"

fun float_pow :: "pyfloat \<Rightarrow> pyfloat \<Rightarrow> error + pyfloat" where
  "float_pow (Finite x) (Finite w) = finite_pow x w"
| "float_pow NaN (Finite w) = Inr (if w = 0 then Finite 1 else NaN)"
| "float_pow PosInf (Finite w) =
     Inr (if w = 0 then Finite 1 else if 0 < w then PosInf else Finite 0)"
| "float_pow NegInf (Finite w) =
     Inr (if w = 0 then Finite 1
          else if 0 < w then (if is_odd_integer w then NegInf else PosInf) else Finite 0)"
| "float_pow NaN _ = Inr NaN"
| "float_pow v NaN = Inr (if feq v (Finite 1) then Finite 1 else NaN)"
| "float_pow v PosInf =
     Inr (if feq (fabs v) (Finite 1) then Finite 1
          else if fle (fabs v) (Finite 1) then Finite 0 else PosInf)"
| "float_pow v NegInf =
     Inr (if feq (fabs v) (Finite 1) then Finite 1
          else if fle (fabs v) (Finite 1) then PosInf else Finite 0)"

text \<open>Sequencing of operations that may raise: the first exception ends the evaluation.\<close>

definition bind :: "error + 'a \<Rightarrow> ('a \<Rightarrow> error + 'b) \<Rightarrow> error + 'b" where
  "bind m f = (case m of Inl e \<Rightarrow> Inl e | Inr v \<Rightarrow> f v)"

definition int_pow :: "pyfloat \<Rightarrow> int \<Rightarrow> error + pyfloat" where
  \<comment> \<open>\<open>a ** n\<close> with a float \<open>a\<close> and an int \<open>n\<close>\<close>
  "int_pow a n = bind (float_of_int n) (float_pow a)"

definition int_mul :: "int \<Rightarrow> pyfloat \<Rightarrow> error + pyfloat" where
  \<comment> \<open>\<open>n * a\<close> with an int \<open>n\<close> and a float \<open>a\<close>\<close>
  "int_mul n a = bind (float_of_int n) (\<lambda>f. Inr (fmul f a))"

text \<open>
  \<open>math.log\<close>: a domain error (ValueError) outside the positive numbers; the library
  result is taken as the correctly rounded logarithm.
\<close>

fun math_log :: "pyfloat \<Rightarrow> error + pyfloat" where
  "math_log (Finite x) = (if x \<le> 0 then Inl ValueError else Inr (rnd (ln x)))"
| "math_log PosInf = Inr PosInf"
| "math_log NegInf = Inl ValueError"
| "math_log NaN = Inr NaN"

section \<open>The class \<open>Dual\<close>\<close>

datatype dual = Dual (real_part: pyfloat) (dual_part: pyfloat)

text \<open>
  The right operand of a binary operator is told apart by \<open>isinstance(other, Dual)\<close>;
  the argument of \<open>pow\<close> and of \<open>**=\<close> also by \<open>isinstance(n, int)\<close>.
\<close>

datatype operand = OfDual dual | OfScalar pyfloat

datatype exponent = IntExp int | FloatExp pyfloat | DualExp dual

text \<open>
  An in-place operator ends by returning the receiver or by raising; either way the
  receiver is left in some state, which is the second component.
\<close>

type_synonym inplace = "error option \<times> dual"

text \<open>\<open>__add__\<close>, \<open>__mul__\<close> and \<open>__rmul__\<close> (which calls \<open>__mul__\<close>).\<close>

definition add :: "dual \<Rightarrow> operand \<Rightarrow> dual" where
  "add self other =
     (case other of
        OfDual d \<Rightarrow> Dual (fadd (real_part self) (real_part d)) (fadd (dual_part self) (dual_part d))
      | OfScalar c \<Rightarrow> Dual (fadd (real_part self) c) (dual_part self))"

definition mul :: "dual \<Rightarrow> operand \<Rightarrow> dual" where
  "mul self other =
     (case other of
        OfDual d \<Rightarrow>
          Dual (fmul (real_part self) (real_part d))
               (fadd (fmul (real_part self) (dual_part d)) (fmul (dual_part self) (real_part d)))
      | OfScalar c \<Rightarrow> Dual (fmul (real_part self) c) (fmul (dual_part self) c))"

definition rmul :: "dual \<Rightarrow> pyfloat \<Rightarrow> dual" where
  "rmul self other = mul self (OfScalar other)"

text \<open>
  \<open>__imul__\<close>. With a \<open>Dual\<close> operand both new fields are computed into locals before
  either assignment, so every read is of the old state, also when the operand is the
  receiver itself (\<open>x *= x\<close>); with a scalar the two augmented assignments run one after
  the other, the second on the state the first has left.
\<close>

definition imul :: "dual \<Rightarrow> operand \<Rightarrow> dual" where
  "imul self other =
     (case other of
        OfDual d \<Rightarrow>
          (let new_real = fmul (real_part self) (real_part d);
               new_dual = fadd (fmul (real_part self) (dual_part d))
                               (fmul (dual_part self) (real_part d))
           in Dual new_real new_dual)
      | OfScalar c \<Rightarrow>
          (let s1 = Dual (fmul (real_part self) c) (dual_part self);
               s2 = Dual (real_part s1) (fmul (dual_part s1) c)
           in s2))"

text \<open>
  \<open>__truediv__\<close> and \<open>__rtruediv__\<close>. The operands of an expression are evaluated left to
  right: in \<open>(...) / (other.real ** 2)\<close> the power may raise before the division does.
\<close>

definition truediv :: "dual \<Rightarrow> operand \<Rightarrow> error + dual" where
  "truediv self other =
     (case other of
        OfDual d \<Rightarrow>
          if feq (real_part d) (Finite 0) then Inl ZeroDivisionError
          else bind (fdiv (real_part self) (real_part d)) (\<lambda>re.
               bind (int_pow (real_part d) 2) (\<lambda>sq.
               bind (fdiv (fsub (fmul (dual_part self) (real_part d))
                                (fmul (real_part self) (dual_part d))) sq) (\<lambda>du.
               Inr (Dual re du))))
      | OfScalar c \<Rightarrow>
          if feq c (Finite 0) then Inl ZeroDivisionError
          else bind (fdiv (real_part self) c) (\<lambda>re.
               bind (fdiv (dual_part self) c) (\<lambda>du.
               Inr (Dual re du))))"

definition rtruediv :: "dual \<Rightarrow> pyfloat \<Rightarrow> error + dual" where
  "rtruediv self other =
     (if feq (real_part self) (Finite 0) then Inl ZeroDivisionError
      else bind (fdiv other (real_part self)) (\<lambda>re.
           bind (int_pow (real_part self) 2) (\<lambda>sq.
           bind (fdiv (fmul (fneg other) (dual_part self)) sq) (\<lambda>du.
           Inr (Dual re du)))))"

text \<open>\<open>__itruediv__\<close>, statement by statement as \<open>__imul__\<close>.\<close>

definition itruediv :: "dual \<Rightarrow> operand \<Rightarrow> inplace" where
  "itruediv self other =
     (case other of
        OfDual d \<Rightarrow>
          if feq (real_part d) (Finite 0) then (Some ZeroDivisionError, self)
          else (case bind (fdiv (real_part self) (real_part d)) (\<lambda>real_div.
                     bind (int_pow (real_part d) 2) (\<lambda>sq.
                     bind (fdiv (fsub (fmul (dual_part self) (real_part d))
                                      (fmul (real_part self) (dual_part d))) sq) (\<lambda>dual_div.
                     Inr (real_div, dual_div)))) of
                  Inl e \<Rightarrow> (Some e, self)
                | Inr (real_div, dual_div) \<Rightarrow> (None, Dual real_div dual_div))
      | OfScalar c \<Rightarrow>
          if feq c (Finite 0) then (Some ZeroDivisionError, self)
          else (case fdiv (real_part self) c of
                  Inl e \<Rightarrow> (Some e, self)
                | Inr re \<Rightarrow>
                    (let s1 = Dual re (dual_part self)
                     in case fdiv (dual_part s1) c of
                          Inl e \<Rightarrow> (Some e, s1)
                        | Inr du \<Rightarrow> (None, Dual (real_part s1) du))))"

text \<open>\<open>inverse\<close> and \<open>log\<close>.\<close>

definition inverse_dual :: "dual \<Rightarrow> error + dual" where
  "inverse_dual self =
     (if feq (real_part self) (Finite 0) then Inl ZeroDivisionError
      else bind (fdiv (Finite 1) (real_part self)) (\<lambda>real_inv.
           bind (int_pow (real_part self) 2) (\<lambda>sq.
           bind (fdiv (fneg (dual_part self)) sq) (\<lambda>dual_inv.
           Inr (Dual real_inv dual_inv)))))"

definition log_dual :: "dual \<Rightarrow> error + dual" where
  "log_dual self =
     (if fle (real_part self) (Finite 0) then Inl ZeroDivisionError
      else bind (math_log (real_part self)) (\<lambda>l.
           bind (fdiv (dual_part self) (real_part self)) (\<lambda>d.
           Inr (Dual l d))))"

text \<open>
  \<open>pow\<close> and \<open>__ipow__\<close>. In \<open>n * (self.real ** (n - 1)) * self.dual\<close> the integer \<open>n\<close>
  is converted to a float when it meets the float power.
\<close>

definition pow :: "dual \<Rightarrow> exponent \<Rightarrow> error + dual" where
  "pow self n =
     (case n of
        IntExp k \<Rightarrow>
          if feq (real_part self) (Finite 0) \<and> k < 0 then Inl ZeroDivisionError
          else bind (int_pow (real_part self) k) (\<lambda>real_part'.
               bind (int_pow (real_part self) (k - 1)) (\<lambda>p.
               bind (int_mul k p) (\<lambda>np.
               Inr (Dual real_part' (fmul np (dual_part self))))))
      | _ \<Rightarrow> Inl TypeError)"

definition ipow :: "dual \<Rightarrow> exponent \<Rightarrow> inplace" where
  "ipow self other =
     (case other of
        DualExp d \<Rightarrow> (Some TypeError, self)
      | IntExp k \<Rightarrow>
          (case bind (int_pow (real_part self) k) (\<lambda>real_pow.
                bind (int_pow (real_part self) (k - 1)) (\<lambda>p.
                bind (int_mul k p) (\<lambda>np.
                Inr (real_pow, fmul np (dual_part self))))) of
             Inl e \<Rightarrow> (Some e, self)
           | Inr (real_pow, dual_pow) \<Rightarrow> (None, Dual real_pow dual_pow))
      | FloatExp w \<Rightarrow>
          (case bind (float_pow (real_part self) w) (\<lambda>real_pow.
                bind (float_pow (real_part self) (fsub w (Finite 1))) (\<lambda>p.
                Inr (real_pow, fmul (fmul w p) (dual_part self)))) of
             Inl e \<Rightarrow> (Some e, self)
           | Inr (real_pow, dual_pow) \<Rightarrow> (None, Dual real_pow dual_pow)))"

text \<open>\<open>__eq__\<close>.\<close>

definition eq_dual :: "dual \<Rightarrow> operand \<Rightarrow> bool" where
  "eq_dual self other =
     (case other of
        OfDual d \<Rightarrow> feq (real_part self) (real_part d) \<and> feq (dual_part self) (dual_part d)
      | OfScalar c \<Rightarrow> feq (real_part self) c \<and> feq (dual_part self) (Finite 0))"

section \<open>Rounding and the float operations\<close>

lemma ilog2_bounds:
  assumes "0 < x"
  shows "2 powi (ilog2 x) \<le> x \<and> x < 2 powi (ilog2 x + 1)"
proof (cases "1 \<le> x")
  case True
  define n where "n = \<lfloor>x\<rfloor>"
  have n1: "1 \<le> n" using True by (simp add: n_def)
  then have n0: "0 < n" by simp
  have b: "2 ^ nat (bitlen n - 1) \<le> n \<and> n < 2 ^ nat (bitlen n)"
    using bitlen_bounds[OF n0] .
  have bl: "1 \<le> bitlen n" using n0 by (simp add: bitlen_def floorlog_def)
  have e: "ilog2 x = bitlen n - 1" using True by (simp add: ilog2_def n_def)
  have "(2::real) powi (bitlen n - 1) = of_int (2 ^ nat (bitlen n - 1))"
    using bl by (simp add: power_int_def)
  also have "\<dots> \<le> of_int n" using b by linarith
  also have "\<dots> \<le> x" by (simp add: n_def)
  finally have lo: "2 powi (ilog2 x) \<le> x" by (simp add: e)
  have "x < of_int (n + 1)" by (simp add: n_def)
  also have "\<dots> \<le> of_int (2 ^ nat (bitlen n))" using b by linarith
  also have "\<dots> = 2 powi (bitlen n)" using bl by (simp add: power_int_def)
  finally have "x < 2 powi (ilog2 x + 1)" by (simp add: e)
  with lo show ?thesis ..
next
  case False
  define m where "m = \<lceil>1 / x\<rceil> - 1"
  have y1: "1 < 1 / x" using False assms by simp
  have m1: "1 \<le> m" using y1 unfolding m_def by linarith
  then have m0: "0 < m" by simp
  have mlt: "of_int m < 1 / x" unfolding m_def by linarith
  have mge: "1 / x \<le> of_int (m + 1)" by (simp add: m_def)
  have b: "2 ^ nat (bitlen m - 1) \<le> m \<and> m < 2 ^ nat (bitlen m)"
    using bitlen_bounds[OF m0] .
  have bl: "1 \<le> bitlen m" using m0 by (simp add: bitlen_def floorlog_def)
  have e: "ilog2 x = - bitlen m" using False by (simp add: ilog2_def m_def)
  have "1 / x \<le> of_int (m + 1)" by (rule mge)
  also have "\<dots> \<le> of_int (2 ^ nat (bitlen m))" using b by linarith
  also have "\<dots> = 2 powi (bitlen m)" using bl by (simp add: power_int_def)
  finally have "1 / x \<le> 2 powi (bitlen m)" .
  then have "1 \<le> 2 powi (bitlen m) * x" using assms by (simp add: field_simps)
  then have lo: "2 powi (ilog2 x) \<le> x"
    by (simp add: e power_int_minus field_simps)
  have "(2::real) powi (bitlen m - 1) = of_int (2 ^ nat (bitlen m - 1))"
    using bl by (simp add: power_int_def)
  also have "\<dots> \<le> of_int m" using b by linarith
  also have "\<dots> < 1 / x" by (rule mlt)
  finally have "2 powi (bitlen m - 1) * x < 1" using assms by (simp add: field_simps)
  then have "x < 2 powi (- bitlen m + 1)"
    by (simp add: power_int_minus field_simps power_int_diff power_int_add)
  with lo show ?thesis by (simp add: e)
qed

lemma ilog2_less:
  assumes "0 < x" and "x < 2 powi k"
  shows "ilog2 x < k"
proof (rule ccontr)
  assume "\<not> ilog2 x < k"
  then have "k \<le> ilog2 x" by simp
  then have "(2::real) powi k \<le> 2 powi (ilog2 x)"
    by (intro power_int_increasing) simp_all
  also have "\<dots> \<le> x" using ilog2_bounds[OF assms(1)] by simp
  finally show False using assms(2) by simp
qed

lemma round_half_even_of_int: "round_half_even (of_int n) = n"
  by (simp add: round_half_even_def)

lemma round_pos_exact:
  assumes m: "0 < m" "m < 2 ^ 53" and k: "- 1074 \<le> k"
    and top: "of_int m * 2 powi k < (2::real) powi 1024"
  shows "round_pos (of_int m * 2 powi k) = Finite (of_int m * 2 powi k)"
proof -
  define x :: real where "x = of_int m * 2 powi k"
  have xpos: "0 < x" using m by (simp add: x_def)
  have "of_int m < (2::real) ^ 53" using m(2) by (metis of_int_less_numeral_power_cancel_iff)
  then have "x < 2 powi 53 * 2 powi k" by (simp add: x_def)
  then have "x < 2 powi (k + 53)" by (simp add: power_int_add add.commute)
  then have "ilog2 x < k + 53" by (rule ilog2_less[OF xpos])
  define e where "e = max (ilog2 x) (- 1022)"
  have ek: "e - 52 \<le> k" using \<open>ilog2 x < k + 53\<close> k by (simp add: e_def)
  define j where "j = nat (k - (e - 52))"
  have kj: "k = (e - 52) + int j" using ek by (simp add: j_def)
  have "x / 2 powi (e - 52) = of_int m * 2 ^ j"
    by (simp add: x_def kj power_int_add)
  also have "\<dots> = of_int (m * 2 ^ j)" by simp
  finally have q: "x / 2 powi (e - 52) = of_int (m * 2 ^ j)" .
  have r: "of_int (round_half_even (x / 2 powi (e - 52))) * 2 powi (e - 52) = x"
    unfolding q round_half_even_of_int using q by (simp add: field_simps)
  have "round_pos x = Finite x"
    using xpos top r unfolding round_pos_def Let_def e_def[symmetric]
    by (simp add: x_def[symmetric])
  then show ?thesis by (simp add: x_def)
qed

lemma round_half_even_small:
  assumes "0 \<le> y" and "y < 1 / 2"
  shows "round_half_even y = 0"
proof -
  have "\<lfloor>y\<rfloor> = 0" using assms by linarith
  then show ?thesis using assms(2) by (simp add: round_half_even_def)
qed

lemma round_pos_underflow:
  assumes "0 < x" and "x < 2 powi (- 1075)"
  shows "round_pos x = Finite 0"
proof -
  define u :: real where "u = 2 powi (- 1074)"
  have upos: "0 < u" by (simp add: u_def)
  have half: "(2::real) powi (- 1075) = u / 2"
    unfolding u_def using power_int_add[of "2::real" "- 1074" "- 1"] by simp
  have "(2::real) powi (- 1075) \<le> 2 powi (- 1022)"
    by (intro power_int_increasing) simp_all
  with assms(2) have "x < 2 powi (- 1022)" by simp
  then have "ilog2 x < - 1022" by (rule ilog2_less[OF assms(1)])
  then have e: "max (ilog2 x) (- 1022) - 52 = - 1074" by simp
  have q: "x / u < 1 / 2" using assms(2) upos unfolding half by (simp add: field_simps)
  have q0: "0 \<le> x / u" using assms(1) upos by simp
  have rh: "round_half_even (x / 2 powi (- 1074)) = 0"
    using round_half_even_small[OF q0 q] by (simp only: u_def)
  show ?thesis unfolding round_pos_def Let_def e rh using assms(1) by simp
qed

lemma rnd_exact:
  assumes "m < 2 ^ 53" "- (2 ^ 53) < m" "- 1074 \<le> k" "\<bar>of_int m * 2 powi k\<bar> < (2::real) powi 1024"
  shows "rnd (of_int m * 2 powi k) = Finite (of_int m * 2 powi k)"
proof -
  consider "m = 0" | "0 < m" | "m < 0" by linarith
  then show ?thesis
  proof cases
    case 1 then show ?thesis by (simp add: rnd_def round_pos_def)
  next
    case 2
    then have "0 < of_int m * (2::real) powi k" by simp
    then show ?thesis using round_pos_exact[OF 2 assms(1) assms(3)] assms(4)
      by (simp add: rnd_def)
  next
    case 3
    then have neg: "of_int m * (2::real) powi k < 0" by (simp add: mult_less_0_iff)
    have "round_pos (of_int (- m) * 2 powi k) = Finite (of_int (- m) * 2 powi k)"
      using 3 assms neg by (intro round_pos_exact) simp_all
    then show ?thesis using neg by (simp add: rnd_def)
  qed
qed

lemma rnd_int:
  assumes "x \<in> \<int>" and "\<bar>x\<bar> < 2 ^ 53"
  shows "rnd x = Finite x"
proof -
  from assms(1) obtain n where n: "x = of_int n" by (auto elim: Ints_cases)
  have "\<bar>of_int n :: real\<bar> < 2 ^ 53" using assms(2) n by simp
  then have b: "\<bar>n\<bar> < 2 ^ 53" by (metis of_int_abs of_int_less_numeral_power_cancel_iff)
  have "(2::real) ^ 53 < 2 powi 1024" by simp
  then have "\<bar>of_int n * 2 powi 0\<bar> < (2::real) powi 1024" using assms(2) n by simp
  then have "rnd (of_int n * 2 powi 0) = Finite (of_int n * 2 powi 0)"
    using b by (intro rnd_exact) simp_all
  then show ?thesis by (simp add: n)
qed

lemma float_of_int_small:
  assumes "\<bar>n\<bar> < 2 ^ 53"
  shows "float_of_int n = Inr (Finite (of_int n))"
proof -
  have "\<bar>of_int n :: real\<bar> < 2 ^ 53"
    using assms by (metis of_int_abs of_int_less_numeral_power_cancel_iff)
  then have "rnd (of_int n) = Finite (of_int n)" by (intro rnd_int) simp_all
  then show ?thesis by (simp add: float_of_int_def)
qed

lemma rnd_neg_double:
  assumes "rnd y = Finite y"
  shows "rnd (- y) = Finite (- y)"
proof -
  consider "y = 0" | "0 < y" | "y < 0" by linarith
  then show ?thesis
  proof cases
    case 1 then show ?thesis using assms by simp
  next
    case 2 then show ?thesis using assms by (simp add: rnd_def)
  next
    case 3
    then have "fneg (round_pos (- y)) = Finite y" using assms by (simp add: rnd_def)
    then have "round_pos (- y) = Finite (- y)" by (cases "round_pos (- y)") simp_all
    then show ?thesis using 3 by (simp add: rnd_def)
  qed
qed

lemma fmul_minus_one:
  assumes "is_double b"
  shows "fmul (fneg (Finite 1)) b = fneg b"
  using assms by (cases b) (simp_all add: is_double_def rnd_neg_double)

lemma int_pow_two:
  "int_pow a 2 = float_pow a (Finite 2)"
  using float_of_int_small[of 2] by (simp add: int_pow_def bind_def)

lemma square_underflow:
  "int_pow (Finite (2 powi (- 600))) 2 = Inr (Finite 0)"
proof -
  have i: "is_integer 2" by (simp add: is_integer_def)
  have "((2::real) powi (- 600)) powi 2 = 2 powi (- 1200)"
    using power_int_mult[of "2::real" "- 600" 2] by simp
  then have e: "exact_pow \<bar>2 powi (- 600)\<bar> 2 = 2 powi (- 1200)"
    using i by (simp add: exact_pow_def)
  have lt: "(2::real) powi (- 1200) < 2 powi (- 1075)"
    by (intro power_int_strict_increasing) simp_all
  have "round_pos (2 powi (- 1200)) = Finite 0"
    by (rule round_pos_underflow[OF _ lt]) simp
  then have r: "rnd (exact_pow \<bar>2 powi (- 600)\<bar> 2) = Finite 0"
    unfolding e by (simp add: rnd_def)
  have n1: "\<bar>(2::real) powi (- 600)\<bar> \<noteq> 1"
  proof -
    have "(2::real) powi (- 600) < 2 powi 0"
      by (intro power_int_strict_increasing) simp_all
    then show ?thesis by simp
  qed
  have "finite_pow (2 powi (- 600)) 2 = Inr (Finite 0)"
    unfolding finite_pow_def r using n1 by simp
  then show ?thesis by (simp add: int_pow_two)
qed

section \<open>Claims\<close>

text \<open>
  C1. For \<open>f(x) = x*x + 3*x + 5\<close> evaluated with dual arithmetic at \<open>x = Dual(2, 1)\<close>, the
  result has real part exactly 15 and dual part exactly 7. The expression parses as
  \<open>((x*x) + (3*x)) + 5\<close>, and \<open>3*x\<close> is \<open>x.__rmul__(3)\<close>.
\<close>

theorem quadratic_at_two:
  "add (add (mul (Dual (Finite 2) (Finite 1)) (OfDual (Dual (Finite 2) (Finite 1))))
            (OfDual (rmul (Dual (Finite 2) (Finite 1)) (Finite 3))))
       (OfScalar (Finite 5))
   = Dual (Finite 15) (Finite 7)"
  by (simp add: add_def mul_def rmul_def rnd_int)

text \<open>
  C2. For every pair of dual numbers \<open>x = (a1, b1)\<close> and \<open>y = (a2, b2)\<close>, the product
  \<open>x * y\<close> is the dual number with real part \<open>a1*a2\<close> and dual part \<open>a1*b2 + b1*a2\<close>; in
  particular \<open>Dual(2,1) * Dual(3,2)\<close> is \<open>Dual(6, 7)\<close>.
\<close>

theorem mul_product_rule:
  "mul (Dual a1 b1) (OfDual (Dual a2 b2)) = Dual (fmul a1 a2) (fadd (fmul a1 b2) (fmul b1 a2))
   \<and> mul (Dual (Finite 2) (Finite 1)) (OfDual (Dual (Finite 3) (Finite 2)))
       = Dual (Finite 6) (Finite 7)"
  by (simp add: mul_def rnd_int)

lemma square_of_three: "int_pow (Finite 3) 2 = Inr (Finite 9)"
proof -
  have "rnd (3 powi 2) = Finite 9" by (simp add: rnd_int)
  then show ?thesis
    by (simp add: int_pow_two finite_pow_def exact_pow_def is_integer_def)
qed

text \<open>
  C3. \<open>x / y\<close> is documented, and claimed, to fail only when the real part of \<open>y\<close> is
  zero, and to return \<open>(a1/a2, (b1*a2 - a1*b2)/a2^2)\<close> otherwise. At
  \<open>Dual(1.0, 1.0) / Dual(2.0 ** -600, 0.0)\<close> the guard \<open>other.real == 0\<close> lets the call
  through, \<open>other.real ** 2\<close> underflows to zero, and the division of the dual part by it
  raises ZeroDivisionError, although the quotient \<open>(2 ** 600, 2 ** 600)\<close> is a pair of
  floats: the scalar branch returns it for the same divisor. With a zero real part the
  division raises whatever the dual part of \<open>y\<close>, and \<open>Dual(6,3) / Dual(3,0)\<close> is
  \<open>Dual(2, 1)\<close>.
\<close>

theorem truediv_small_divisor_raises:
  "\<not> feq (Finite (2 powi (- 600))) (Finite 0)
   \<and> truediv (Dual (Finite 1) (Finite 1)) (OfDual (Dual (Finite (2 powi (- 600))) (Finite 0)))
       = Inl ZeroDivisionError
   \<and> truediv (Dual (Finite 1) (Finite 1)) (OfScalar (Finite (2 powi (- 600))))
       = Inr (Dual (Finite (2 powi 600)) (Finite (2 powi 600)))
   \<and> truediv x (OfDual (Dual (Finite 0) b2)) = Inl ZeroDivisionError
   \<and> truediv (Dual (Finite 6) (Finite 3)) (OfDual (Dual (Finite 3) (Finite 0)))
       = Inr (Dual (Finite 2) (Finite 1))"
proof -
  define t :: real where "t = 2 powi (- 600)"
  define T :: real where "T = 2 powi 600"
  have tnz: "t \<noteq> 0" by (simp add: t_def)
  have q: "1 / t = T" unfolding t_def T_def by (simp add: power_int_minus)
  have r: "rnd T = Finite T" unfolding T_def using rnd_exact[of 1 600] by simp
  have sq: "int_pow (Finite t) 2 = Inr (Finite 0)" unfolding t_def by (rule square_underflow)
  have nz: "\<not> feq (Finite t) (Finite 0)" using tnz by simp
  have d: "truediv (Dual (Finite 1) (Finite 1)) (OfDual (Dual (Finite t) (Finite 0)))
             = Inl ZeroDivisionError"
    using nz sq by (simp add: truediv_def bind_def fdiv_def)
  have s: "truediv (Dual (Finite 1) (Finite 1)) (OfScalar (Finite t))
             = Inr (Dual (Finite T) (Finite T))"
    using tnz q r by (simp add: truediv_def bind_def fdiv_def)
  have g: "truediv x (OfDual (Dual (Finite 0) b2)) = Inl ZeroDivisionError"
    by (simp add: truediv_def)
  have n: "truediv (Dual (Finite 6) (Finite 3)) (OfDual (Dual (Finite 3) (Finite 0)))
             = Inr (Dual (Finite 2) (Finite 1))"
    by (simp add: truediv_def bind_def fdiv_def square_of_three fsub_def rnd_int)
  show ?thesis using nz d s g n unfolding t_def T_def by blast
qed

lemma int_pow_small:
  "\<bar>n\<bar> < 2 ^ 53 \<Longrightarrow> int_pow a n = float_pow a (Finite (of_int n))"
  by (simp add: int_pow_def bind_def float_of_int_small)

lemma int_mul_small:
  "\<bar>n\<bar> < 2 ^ 53 \<Longrightarrow> int_mul n a = Inr (fmul (Finite (of_int n)) a)"
  by (simp add: int_mul_def bind_def float_of_int_small)

text \<open>
  C4. \<open>x.pow(n)\<close> is documented, and claimed, to fail only for a zero real part with
  \<open>n < 0\<close>. At \<open>Dual(0, b).pow(0)\<close>, for every \<open>b\<close> (so at \<open>Dual(0, 1).pow(0)\<close>), the guard
  lets the call through and the dual part \<open>n * (self.real ** (n - 1)) * self.dual\<close>
  computes \<open>0 ** -1\<close>, which raises ZeroDivisionError. \<open>Dual(2,1).pow(3)\<close> is
  \<open>Dual(8, 12)\<close>.
\<close>

theorem pow_zero_base_zero_exponent:
  "pow (Dual (Finite 0) b) (IntExp 0) = Inl ZeroDivisionError
   \<and> pow (Dual (Finite 2) (Finite 1)) (IntExp 3) = Inr (Dual (Finite 8) (Finite 12))"
proof
  have "int_pow (Finite 0) 0 = Inr (Finite 1)"
    using int_pow_small[of 0 "Finite 0"] by (simp add: finite_pow_def)
  moreover have "int_pow (Finite 0) (- 1) = Inl ZeroDivisionError"
    using int_pow_small[of "- 1" "Finite 0"] by (simp add: finite_pow_def)
  ultimately show "pow (Dual (Finite 0) b) (IntExp 0) = Inl ZeroDivisionError"
    by (simp add: pow_def bind_def)
next
  have i: "is_integer 3" "is_integer 2" by (simp_all add: is_integer_def)
  have "int_pow (Finite 2) 3 = Inr (Finite 8)"
    using int_pow_small[of 3 "Finite 2"] i
    by (simp add: finite_pow_def exact_pow_def rnd_int)
  moreover have "int_pow (Finite 2) 2 = Inr (Finite 4)"
    using int_pow_small[of 2 "Finite 2"] i
    by (simp add: finite_pow_def exact_pow_def rnd_int)
  moreover have "int_mul 3 (Finite 4) = Inr (Finite 12)"
    using int_mul_small[of 3 "Finite 4"] by (simp add: rnd_int)
  ultimately show "pow (Dual (Finite 2) (Finite 1)) (IntExp 3) = Inr (Dual (Finite 8) (Finite 12))"
    by (simp add: pow_def bind_def rnd_int)
qed

lemma rnd_half: "rnd (1 / 2) = Finite (1 / 2)"
  using rnd_exact[of 1 "- 1"] by simp

lemma rnd_minus_half: "rnd (- (1 / 2)) = Finite (- (1 / 2))"
  using rnd_exact[of "- 1" "- 1"] by simp

lemma rnd_quarter: "rnd (1 / 4) = Finite (1 / 4)"
  using rnd_exact[of 1 "- 2"] by simp

lemma four_powr_half: "(4::real) powr (1 / 2) = 2"
  by (simp add: powr_half_sqrt)

lemma four_powr_minus_half: "(4::real) powr (- (1 / 2)) = 1 / 2"
  using four_powr_half by (simp add: powr_minus field_simps)

text \<open>
  C5. \<open>**=\<close> is documented to raise TypeError when the exponent is not an integer, as
  \<open>pow\<close> does, but it tests only \<open>isinstance(other, Dual)\<close>: \<open>x **= 0.5\<close> on
  \<open>x = Dual(4.0, 1.0)\<close> raises nothing and leaves \<open>x\<close> as \<open>Dual(2.0, 0.25)\<close>, where
  \<open>x.pow(0.5)\<close> raises TypeError. A dual-number exponent is rejected with the receiver
  unchanged.
\<close>

theorem ipow_accepts_float_exponent:
  "ipow (Dual (Finite 4) (Finite 1)) (FloatExp (Finite (1 / 2)))
     = (None, Dual (Finite 2) (Finite (1 / 4)))
   \<and> pow (Dual (Finite 4) (Finite 1)) (FloatExp (Finite (1 / 2))) = Inl TypeError
   \<and> ipow x (DualExp d) = (Some TypeError, x)"
proof -
  have ni: "\<not> is_integer (1 / 2)" "\<not> is_integer (- (1 / 2))"
    by (simp_all add: is_integer_def)
  have p1: "finite_pow 4 (1 / 2) = Inr (Finite 2)"
    using ni by (simp add: finite_pow_def exact_pow_def four_powr_half rnd_int)
  have s: "fsub (Finite (1 / 2)) (Finite 1) = Finite (- (1 / 2))"
    using rnd_minus_half by (simp add: fsub_def)
  have p2: "finite_pow 4 (- (1 / 2)) = Inr (Finite (1 / 2))"
    using ni by (simp add: finite_pow_def exact_pow_def four_powr_minus_half rnd_half)
  have m: "fmul (fmul (Finite (1 / 2)) (Finite (1 / 2))) (Finite 1) = Finite (1 / 4)"
    using rnd_quarter by simp
  show ?thesis
    by (simp add: ipow_def pow_def bind_def p1 s p2 m del: fmul.simps)
qed

text \<open>
  C6. For every dual number \<open>x\<close> and every operand \<open>y\<close> (dual number or scalar), \<open>x *= y\<close>
  leaves \<open>x\<close> with the fields of \<open>x * y\<close>, and \<open>x /= y\<close> leaves it with the fields of
  \<open>x / y\<close> whenever that division returns (and raises the same exception, with \<open>x\<close> as it
  was, whenever it raises): both fields are computed from the values before the update.
\<close>

theorem inplace_agrees_with_pure:
  "imul x y = mul x y
   \<and> itruediv x y = (case truediv x y of Inl e \<Rightarrow> (Some e, x) | Inr r \<Rightarrow> (None, r))"
proof
  show "imul x y = mul x y"
    by (cases y) (simp_all add: imul_def mul_def)
next
  show "itruediv x y = (case truediv x y of Inl e \<Rightarrow> (Some e, x) | Inr r \<Rightarrow> (None, r))"
  proof (cases y)
    case (OfDual d)
    then show ?thesis
      by (simp add: itruediv_def truediv_def bind_def split: sum.splits)
  next
    case (OfScalar c)
    then show ?thesis
      by (simp add: itruediv_def truediv_def bind_def fdiv_def)
  qed
qed

lemma square_of_four: "int_pow (Finite 4) 2 = Inr (Finite 16)"
proof -
  have "rnd (4 powi 2) = Finite 16" by (simp add: rnd_int)
  then show ?thesis
    by (simp add: int_pow_two finite_pow_def exact_pow_def is_integer_def)
qed

lemma rnd_minus_sixteenth: "rnd (- (1 / 16)) = Finite (- (1 / 16))"
  using rnd_exact[of "- 1" "- 4"] by simp

lemma inverse_agrees_with_rtruediv:
  "is_double b \<Longrightarrow> inverse_dual (Dual a b) = rtruediv (Dual a b) (Finite 1)"
  by (simp add: inverse_dual_def rtruediv_def fmul_minus_one del: fneg.simps)

text \<open>
  C7. \<open>x.inverse()\<close> is documented, and claimed, to return \<open>(1/a, -b/a^2)\<close> whenever the
  real part \<open>a\<close> is not zero. At \<open>Dual(2.0 ** -600, b).inverse()\<close>, for every \<open>b\<close> (so at
  \<open>b = 0.0\<close>, where the inverse \<open>(2 ** 600, 0)\<close> is a pair of floats), the guard
  \<open>self.real == 0\<close> lets the call through, \<open>self.real ** 2\<close> underflows to zero, and
  \<open>-self.dual / (self.real ** 2)\<close> raises ZeroDivisionError; the reflected division
  \<open>1 / x\<close> does the same. With a zero real part both raise, and \<open>Dual(4, 1).inverse()\<close>
  is \<open>Dual(1/4, -1/16)\<close>.
\<close>

theorem inverse_small_real_part_raises:
  "\<not> feq (Finite (2 powi (- 600))) (Finite 0)
   \<and> inverse_dual (Dual (Finite (2 powi (- 600))) b) = Inl ZeroDivisionError
   \<and> rtruediv (Dual (Finite (2 powi (- 600))) b) (Finite 1) = Inl ZeroDivisionError
   \<and> inverse_dual (Dual (Finite 0) b) = Inl ZeroDivisionError
   \<and> rtruediv (Dual (Finite 0) b) (Finite 1) = Inl ZeroDivisionError
   \<and> inverse_dual (Dual (Finite 4) (Finite 1))
       = Inr (Dual (Finite (1 / 4)) (Finite (- (1 / 16))))"
proof -
  define t :: real where "t = 2 powi (- 600)"
  have tnz: "t \<noteq> 0" by (simp add: t_def)
  have sq: "int_pow (Finite t) 2 = Inr (Finite 0)" unfolding t_def by (rule square_underflow)
  have nz: "\<not> feq (Finite t) (Finite 0)" using tnz by simp
  have i: "inverse_dual (Dual (Finite t) b) = Inl ZeroDivisionError"
    using nz sq by (simp add: inverse_dual_def bind_def fdiv_def)
  have r: "rtruediv (Dual (Finite t) b) (Finite 1) = Inl ZeroDivisionError"
    using nz sq by (simp add: rtruediv_def bind_def fdiv_def)
  have i0: "inverse_dual (Dual (Finite 0) b) = Inl ZeroDivisionError"
    by (simp add: inverse_dual_def)
  have r0: "rtruediv (Dual (Finite 0) b) (Finite 1) = Inl ZeroDivisionError"
    by (simp add: rtruediv_def)
  have n: "inverse_dual (Dual (Finite 4) (Finite 1))
             = Inr (Dual (Finite (1 / 4)) (Finite (- (1 / 16))))"
    by (simp add: inverse_dual_def bind_def fdiv_def square_of_four rnd_quarter
        rnd_minus_sixteenth)
  show ?thesis using nz i r i0 r0 n unfolding t_def by blast
qed

lemma math_log_positive:
  "\<not> fle a (Finite 0) \<Longrightarrow> \<exists>l. math_log a = Inr l"
  by (cases a) simp_all

lemma not_fle_zero_not_feq_zero:
  "\<not> fle a (Finite 0) \<Longrightarrow> \<not> feq a (Finite 0)"
  by (cases a) simp_all

text \<open>
  C8, as the claim states it: \<open>x.log()\<close> fails with a domain error, a category apart from
  the division-undefined one, exactly when the real part is \<open>\<le> 0\<close>. Python's domain
  error is ValueError (what \<open>math.log\<close> itself raises); the method raises
  ZeroDivisionError instead, as its docstring says. At \<open>Dual(0, 1).log()\<close> the real part
  is \<open>\<le> 0\<close> and the exception is not ValueError.
\<close>

theorem log_domain_error_counterexample:
  "\<not> (log_dual (Dual (Finite 0) (Finite 1)) = Inl ValueError
      \<longleftrightarrow> fle (Finite 0) (Finite 0))"
  by (simp add: log_dual_def)

text \<open>
  C8, amended: \<open>x.log()\<close> fails with ZeroDivisionError, the exception of the
  division-undefined errors, exactly when the real part \<open>a\<close> is \<open>\<le> 0\<close>, and it never
  raises a domain error; otherwise it returns the dual number with real part \<open>log(a)\<close>
  and dual part \<open>b/a\<close>. \<open>Dual(0,1).log()\<close> raises ZeroDivisionError.
\<close>

theorem log_dual_spec:
  "(log_dual (Dual a b) = Inl ZeroDivisionError \<longleftrightarrow> fle a (Finite 0))
   \<and> log_dual (Dual a b) \<noteq> Inl ValueError
   \<and> (\<not> fle a (Finite 0) \<longrightarrow>
        (\<exists>l. math_log a = Inr l \<and> log_dual (Dual a b) = Inr (Dual l (ieee_div b a))))
   \<and> log_dual (Dual (Finite 0) (Finite 1)) = Inl ZeroDivisionError"
proof -
  have pos: "\<exists>l. math_log a = Inr l \<and> log_dual (Dual a b) = Inr (Dual l (ieee_div b a))"
    if n: "\<not> fle a (Finite 0)"
  proof -
    from math_log_positive[OF n] obtain l where l: "math_log a = Inr l" ..
    have "log_dual (Dual a b) = Inr (Dual l (ieee_div b a))"
      using n l not_fle_zero_not_feq_zero[OF n] by (simp add: log_dual_def bind_def fdiv_def)
    with l show ?thesis by blast
  qed
  have neg: "log_dual (Dual a b) = Inl ZeroDivisionError" if "fle a (Finite 0)"
    using that by (simp add: log_dual_def)
  have "log_dual (Dual a b) = Inl ZeroDivisionError \<longleftrightarrow> fle a (Finite 0)"
    using pos neg by (cases "fle a (Finite 0)") auto
  moreover have "log_dual (Dual a b) \<noteq> Inl ValueError"
    using pos neg by (cases "fle a (Finite 0)") auto
  moreover have "log_dual (Dual (Finite 0) (Finite 1)) = Inl ZeroDivisionError"
    by (simp add: log_dual_def)
  ultimately show ?thesis using pos by blast
qed

theorem log_dual_spec_witness:
  "\<not> fle (Finite 1) (Finite 0)
   \<and> log_dual (Dual (Finite 1) (Finite 3)) = Inr (Dual (Finite 0) (Finite 3))"
proof -
  have n: "\<not> fle (Finite 1) (Finite 0)" by simp
  from log_dual_spec[of "Finite 1" "Finite 3"] n
  obtain l where l: "math_log (Finite 1) = Inr l"
    and r: "log_dual (Dual (Finite 1) (Finite 3)) = Inr (Dual l (ieee_div (Finite 3) (Finite 1)))"
    by blast
  have "l = Finite 0" using l by (simp add: rnd_int)
  then show ?thesis using n r by (simp add: rnd_int)
qed

text \<open>
  C9. Equality is decided by the two fields alone: \<open>x == y\<close> for dual numbers
  \<open>x = (a, b)\<close> and \<open>y = (c, d)\<close> is \<open>a == c and b == d\<close>, and \<open>x == s\<close> for a scalar \<open>s\<close> is
  \<open>a == s and b == 0\<close>, each \<open>==\<close> being the exact comparison of floats (on finite values:
  being the same number, with no tolerance).
\<close>

theorem eq_dual_spec:
  "eq_dual (Dual a b) (OfDual (Dual c d)) = (feq a c \<and> feq b d)
   \<and> eq_dual (Dual a b) (OfScalar s) = (feq a s \<and> feq b (Finite 0))
   \<and> eq_dual (Dual (Finite p) (Finite q)) (OfDual (Dual (Finite r) (Finite t))) = (p = r \<and> q = t)
   \<and> eq_dual (Dual (Finite p) (Finite q)) (OfScalar (Finite r)) = (p = r \<and> q = 0)"
  by (simp add: eq_dual_def)

text \<open>
  C10. In-place division is atomic on error: whenever \<open>x /= y\<close> raises, \<open>x\<close> is left as it
  was; and it does raise ZeroDivisionError when \<open>y\<close> is a dual number with zero real part
  or the scalar zero.
\<close>

theorem itruediv_atomic:
  "(fst (itruediv x y) = Some e \<longrightarrow> snd (itruediv x y) = x)
   \<and> ((case y of OfDual d \<Rightarrow> feq (real_part d) (Finite 0) | OfScalar c \<Rightarrow> feq c (Finite 0))
        \<longrightarrow> itruediv x y = (Some ZeroDivisionError, x))"
proof (cases y)
  case (OfDual d)
  then show ?thesis
    by (simp add: itruediv_def split: sum.splits prod.splits)
next
  case (OfScalar c)
  then show ?thesis
    by (simp add: itruediv_def fdiv_def)
qed

theorem itruediv_atomic_witness:
  "fst (itruediv (Dual (Finite 4) (Finite 1)) (OfScalar (Finite 0))) = Some ZeroDivisionError
   \<and> (case OfScalar (Finite 0) of OfDual d \<Rightarrow> feq (real_part d) (Finite 0)
                                 | OfScalar c \<Rightarrow> feq c (Finite 0))
   \<and> snd (itruediv (Dual (Finite 4) (Finite 1)) (OfScalar (Finite 0)))
       = Dual (Finite 4) (Finite 1)"
proof -
  have g: "case OfScalar (Finite 0) of OfDual d \<Rightarrow> feq (real_part d) (Finite 0)
                                     | OfScalar c \<Rightarrow> feq c (Finite 0)"
    by simp
  note spec = itruediv_atomic[of "Dual (Finite 4) (Finite 1)" "OfScalar (Finite 0)" ZeroDivisionError]
  have r: "itruediv (Dual (Finite 4) (Finite 1)) (OfScalar (Finite 0))
             = (Some ZeroDivisionError, Dual (Finite 4) (Finite 1))"
    using spec g by blast
  then have f: "fst (itruediv (Dual (Finite 4) (Finite 1)) (OfScalar (Finite 0)))
                  = Some ZeroDivisionError"
    by simp
  have "snd (itruediv (Dual (Finite 4) (Finite 1)) (OfScalar (Finite 0)))
          = Dual (Finite 4) (Finite 1)"
    using spec f by blast
  then show ?thesis using f g by blast
qed

end
